theory Spec2Isabelle
  imports Complex_Main
begin

section \<open>Data model of \<open>hmm-service/data_pipeline.py\<close>\<close>

text \<open>
  Python floats are modelled as \<^typ>\<open>real\<close>, Python integers as \<^typ>\<open>int\<close>, strings as
  \<^typ>\<open>string\<close> (characters with code points below 256). Every reading of the wall clock
  (\<open>time.time()\<close>, \<open>datetime.now(timezone.utc)\<close>) and every outcome of a call into the
  Kafka or PostgreSQL client is an explicit input of the operation that makes it.
\<close>

subsection \<open>\<open>datetime\<close> values\<close>

text \<open>
  The \<open>tzinfo\<close> attribute of a \<open>datetime\<close> that has one. \<open>Timezone off\<close> is an instance of
  \<open>datetime.timezone\<close>, a fixed offset of \<open>off\<close> microseconds from UTC; \<open>timezone.utc\<close> is
  \<open>Timezone 0\<close>. \<open>Zone a off flipped\<close> is any other \<open>tzinfo\<close> object (a
  \<open>zoneinfo.ZoneInfo\<close>, say): \<open>a\<close> identifies the object, \<open>off\<close> is what its \<open>utcoffset\<close>
  returns for the \<open>datetime\<close> that carries it, and \<open>flipped\<close> what it returns for that
  \<open>datetime\<close> with \<open>fold\<close> flipped; the two differ in a repeated or a skipped hour of the
  zone. Offsets are in microseconds, the resolution of \<open>timedelta\<close>.
\<close>

datatype tzinfo = Timezone int | Zone nat int int

fun tz_offset :: "tzinfo \<Rightarrow> int" where
  "tz_offset (Timezone off) = off"
| "tz_offset (Zone a off flipped) = off"


text \<open>
  A \<open>datetime\<close> object: its calendar fields, \<open>fold\<close> (here \<open>dt_fold\<close>) and \<open>tzinfo\<close>.
  A value is naive when it has no \<open>tzinfo\<close> (also when its \<open>tzinfo\<close> gives no offset:
  \<open>None\<close> here as well) and aware otherwise. \<open>utcoffset\<close> is the method of that name, \<open>flipped_utcoffset\<close> is
  \<open>self.replace(fold=not self.fold).utcoffset()\<close>.
\<close>

record datetime =
  year :: nat
  month :: nat
  day :: nat
  hour :: nat
  minute :: nat
  second :: nat
  microsecond :: nat
  dt_fold :: nat
  tzinfo :: "tzinfo option"

definition utcoffset :: "datetime \<Rightarrow> int option" where
  "utcoffset t = map_option tz_offset (tzinfo t)"


subsection \<open>\<open>MarketDataPoint\<close>\<close>

text \<open>
  The dataclass is not frozen. \<open>timestamp\<close> is declared \<open>datetime\<close>, but
  \<open>ingest_data_point\<close> tests \<open>not data_point.timestamp\<close>, so a point can arrive with no
  timestamp: \<open>None\<close> here. \<open>metadata\<close> is an optional mapping, kept as an association list.
\<close>

record MarketDataPoint =
  symbol :: string
  timestamp :: "datetime option"
  price :: real
  volume :: int
  bid :: "real option"
  ask :: "real option"
  source :: string
  data_type :: string
  metadata :: "(string \<times> string) list option"

subsection \<open>Bounded deques\<close>

text \<open>\<open>collections.deque(maxlen=n).append(x)\<close>: the oldest entries fall out on the left.\<close>

definition deque_append :: "nat \<Rightarrow> 'a list \<Rightarrow> 'a \<Rightarrow> 'a list" where
  "deque_append maxlen d x = (let d' = d @ [x] in drop (length d' - maxlen) d')"

section \<open>\<open>DataQualityValidator\<close>\<close>

record DataQualityValidator =
  price_history :: "string \<Rightarrow> real list option"
  max_history :: nat

definition DataQualityValidator_init :: DataQualityValidator where
  "DataQualityValidator_init = \<lparr>price_history = (\<lambda>_. None), max_history = 100\<rparr>"

text \<open>
  \<open>validate_price_data\<close> returns the boolean result and the validator after the call. With
  more than 10 prices in the history of the symbol, the method computes
  \<open>abs(price - avg_price) / avg_price\<close> over the last 10 of them and compares it with 0.5,
  in floating-point arithmetic, only to decide whether a warning is logged; log output is
  not part of this model and the comparison does not enter the result. What the division
  contributes to the result is \<open>ZeroDivisionError\<close> when the average is zero: the \<open>except\<close>
  clause turns that into \<open>False\<close>, with nothing appended to the history. The average of
  positive prices is not zero, and every price in a history is positive (\<open>hist_pos\<close> below).
\<close>

definition recent_prices :: "real list \<Rightarrow> real list" where
  "recent_prices history = drop (length history - 10) history"

definition avg_price :: "real list \<Rightarrow> real" where
  "avg_price history = sum_list (recent_prices history) / real (length (recent_prices history))"

definition validate_price_data ::
  "DataQualityValidator \<Rightarrow> MarketDataPoint \<Rightarrow> bool \<times> DataQualityValidator" where
  "validate_price_data v data_point =
     (if price data_point \<le> 0 then (False, v)
      else if volume data_point < 0 then (False, v)
      else
        let sym = symbol data_point;
            history = (case price_history v sym of None \<Rightarrow> [] | Some h \<Rightarrow> h);
            v1 = v\<lparr>price_history := (price_history v)(sym \<mapsto> history)\<rparr>
        in if length history > 10 \<and> avg_price history = 0 then (False, v1)
           else
             (True,
              v\<lparr>price_history := (price_history v)
                    (sym \<mapsto> deque_append (max_history v) history (price data_point))\<rparr>))"

section \<open>Serialisation: \<open>to_dict\<close> and \<open>from_dict\<close>\<close>

subsection \<open>\<open>datetime.isoformat\<close> and \<open>datetime.fromisoformat\<close>\<close>

text \<open>
  The two library functions the dataclass calls, as CPython 3.11 has them. Strings are
  sequences of characters with code points below 256. \<open>isoformat\<close> prints
  \<open>YYYY-MM-DDTHH:MM:SS\<close>, then \<open>.ffffff\<close> when the microsecond is not zero, then for an aware
  value the offset \<open>+HH:MM\<close> or \<open>-HH:MM\<close>, extended by \<open>:SS\<close> and \<open>.ffffff\<close> when the offset
  is not a whole number of minutes or seconds.
\<close>

definition digit_char :: "nat \<Rightarrow> char" where
  "digit_char n = char_of (48 + n)"

fun zero_pad :: "nat \<Rightarrow> nat \<Rightarrow> string" where
  "zero_pad 0 n = []"
| "zero_pad (Suc w) n = zero_pad w (n div 10) @ [digit_char (n mod 10)]"

definition format_offset :: "int \<Rightarrow> string" where
  "format_offset off =
     (let a = nat \<bar>off\<bar>;
          hh = a div 3600000000;
          mm = (a div 60000000) mod 60;
          ss = (a div 1000000) mod 60;
          us = a mod 1000000
      in (if off < 0 then ''-'' else ''+'') @ zero_pad 2 hh @ '':'' @ zero_pad 2 mm @
         (if ss \<noteq> 0 \<or> us \<noteq> 0 then '':'' @ zero_pad 2 ss else []) @
         (if us \<noteq> 0 then ''.'' @ zero_pad 6 us else []))"

definition isoformat :: "datetime \<Rightarrow> string" where
  "isoformat t =
     zero_pad 4 (year t) @ ''-'' @ zero_pad 2 (month t) @ ''-'' @ zero_pad 2 (day t) @ ''T'' @
     zero_pad 2 (hour t) @ '':'' @ zero_pad 2 (minute t) @ '':'' @ zero_pad 2 (second t) @
     (if microsecond t \<noteq> 0 then ''.'' @ zero_pad 6 (microsecond t) else []) @
     (case utcoffset t of None \<Rightarrow> [] | Some off \<Rightarrow> format_offset off)"













subsection \<open>Equality of \<open>datetime\<close> values\<close>









subsection \<open>The dictionary form of a point\<close>

text \<open>
  The dictionary \<open>asdict\<close> builds has one key per field. Its \<open>timestamp\<close> entry holds a string
  after \<open>to_dict\<close> (\<open>Inl\<close>); \<open>from_dict\<close> also accepts one that holds a \<open>datetime\<close> or
  \<open>None\<close> (\<open>Inr\<close>), which it passes on unchanged.
\<close>

datatype error = AttributeError | ValueError

record point_dict =
  d_symbol :: string
  d_timestamp :: "string + datetime option"
  d_price :: real
  d_volume :: int
  d_bid :: "real option"
  d_ask :: "real option"
  d_source :: string
  d_data_type :: string
  d_metadata :: "(string \<times> string) list option"

definition to_dict :: "MarketDataPoint \<Rightarrow> error + point_dict" where
  "to_dict p =
     (case timestamp p of
        None \<Rightarrow> Inl AttributeError
      | Some t \<Rightarrow>
          Inr \<lparr>d_symbol = symbol p, d_timestamp = Inl (isoformat t), d_price = price p,
               d_volume = volume p, d_bid = bid p, d_ask = ask p, d_source = source p,
               d_data_type = data_type p, d_metadata = metadata p\<rparr>)"





section \<open>\<open>KafkaStreamer\<close>\<close>

text \<open>
  \<open>producer\<close> and \<open>admin_client\<close> say whether the attribute is set (not \<open>None\<close>);
  \<open>producer_closed\<close> is set by \<open>close\<close>; \<open>sent\<close> lists the messages handed to
  \<open>producer.send\<close>. Whether the broker accepts a \<open>create_topics\<close> or a \<open>send\<close> is an input.
\<close>

record KafkaStreamer =
  producer :: bool
  producer_closed :: bool
  admin_client :: bool
  topics_created :: "string set"
  sent :: "(string \<times> point_dict) list"

record kafka_env =
  create_topics_ok :: bool
  send_ok :: bool

definition create_topic :: "KafkaStreamer \<Rightarrow> kafka_env \<Rightarrow> string \<Rightarrow> KafkaStreamer" where
  "create_topic k env topic_name =
     (if \<not> admin_client k \<or> topic_name \<in> topics_created k then k
      else if create_topics_ok env then k\<lparr>topics_created := insert topic_name (topics_created k)\<rparr>
      else k)"

definition publish_data ::
  "KafkaStreamer \<Rightarrow> kafka_env \<Rightarrow> string \<Rightarrow> MarketDataPoint \<Rightarrow> bool \<times> KafkaStreamer" where
  "publish_data k env topic data_point =
     (if \<not> producer k then (False, k)
      else
        let k1 = create_topic k env topic in
        case to_dict data_point of
          Inl e \<Rightarrow> (False, k1)
        | Inr d \<Rightarrow>
            if producer_closed k1 \<or> \<not> send_ok env then (False, k1)
            else (True, k1\<lparr>sent := sent k1 @ [(topic, d)]\<rparr>))"

definition kafka_close :: "KafkaStreamer \<Rightarrow> KafkaStreamer" where
  "kafka_close k = (if producer k then k\<lparr>producer_closed := True\<rparr> else k)"

text \<open>
  \<open>str.lower\<close>, for the topic name, on strings of characters with code points below 256:
  the letters \<open>A\<close> to \<open>Z\<close> and the capital letters of Latin-1 (U+00C0 to U+00DE without
  the multiplication sign U+00D7) move up by 32, every other character stays.
\<close>

definition lower_char :: "char \<Rightarrow> char" where
  "lower_char c =
     (let n = of_char c :: nat
      in if (65 \<le> n \<and> n \<le> 90) \<or> (192 \<le> n \<and> n \<le> 222 \<and> n \<noteq> 215) then char_of (n + 32)
         else c)"

definition lower :: "string \<Rightarrow> string" where
  "lower s = map lower_char s"

section \<open>\<open>PostgreSQLStorage\<close>\<close>

text \<open>
  \<open>pool\<close> says whether the connection pool exists, \<open>pool_closed\<close> whether \<open>closeall\<close> has
  run. \<open>market_data\<close> is the committed content of the table of that name. The connection
  does not autocommit: the rows that \<open>execute_values\<close> sends are pending in the
  connection's transaction, \<open>conn.commit()\<close> appends the pending rows to the table, and the
  pending rows of a connection that goes back to the pool, or is dropped, inside a
  transaction are rolled back. A \<open>commit\<close> that raises has committed nothing.
\<close>

type_synonym row =
  "string \<times> datetime option \<times> real \<times> int \<times> real option \<times> real option \<times> string \<times> string \<times>
   (string \<times> string) list option"

record PostgreSQLStorage =
  pool :: bool
  pool_closed :: bool
  market_data :: "row list"

text \<open>
  Which of the client calls raise is an input. \<open>execute_values\<close> sends the rows in pages,
  one \<open>INSERT\<close> statement each; \<open>execute_raises\<close> is \<open>None\<close> when it returns, and
  \<open>Some k\<close> when it raises after \<open>k\<close> rows were sent.
\<close>

record db_env =
  getconn_ok :: bool
  cursor_ok :: bool
  execute_raises :: "nat option"
  commit_ok :: bool
  putconn_ok :: bool

text \<open>\<open>execute_values\<close>: whether it returned, and the rows now pending in the transaction.\<close>

definition execute_values :: "db_env \<Rightarrow> row list \<Rightarrow> bool \<times> row list" where
  "execute_values env rows =
     (case execute_raises env of None \<Rightarrow> (True, rows) | Some k \<Rightarrow> (False, take k rows))"

text \<open>
  One tuple of \<open>values\<close>. The metadata column is \<open>json.dumps(dp.metadata) if dp.metadata else
  None\<close>: an empty mapping is stored as \<open>NULL\<close>; the JSON text is represented by the mapping.
\<close>

definition row_of :: "MarketDataPoint \<Rightarrow> row" where
  "row_of dp =
     (symbol dp, timestamp dp, price dp, volume dp, bid dp, ask dp, source dp, data_type dp,
      (case metadata dp of None \<Rightarrow> None | Some m \<Rightarrow> if m = [] then None else Some m))"

text \<open>
  A failure of \<open>getconn\<close> (also: the pool is closed) is caught before the inner \<open>try\<close> is
  entered. A failure of the cursor, of \<open>execute_values\<close> or of \<open>commit\<close> leaves through
  \<open>finally\<close> and the outer \<open>except\<close>: the function returns \<open>False\<close> and what was pending
  is rolled back, whether or not \<open>putconn\<close> raises as well. When everything up to \<open>commit\<close>
  succeeded and \<open>putconn\<close> raises in the \<open>finally\<close> clause, the pending \<open>return True\<close> is
  replaced by the handler's \<open>return False\<close>, after the commit.
\<close>

definition store_batch ::
  "PostgreSQLStorage \<Rightarrow> db_env \<Rightarrow> MarketDataPoint list \<Rightarrow> bool \<times> PostgreSQLStorage" where
  "store_batch st env data_points =
     (if \<not> pool st \<or> data_points = [] then (False, st)
      else if pool_closed st \<or> \<not> getconn_ok env then (False, st)
      else if \<not> cursor_ok env then (False, st)
      else case execute_values env (map row_of data_points) of
        (returned, pending) \<Rightarrow>
          if \<not> returned \<or> \<not> commit_ok env then (False, st)
          else
            let st' = st\<lparr>market_data := market_data st @ pending\<rparr>
            in if putconn_ok env then (True, st') else (False, st'))"

definition storage_close :: "PostgreSQLStorage \<Rightarrow> PostgreSQLStorage" where
  "storage_close st = (if pool st then st\<lparr>pool_closed := True\<rparr> else st)"

section \<open>\<open>DataIngestionPipeline\<close>\<close>

record metrics =
  total_processed :: int
  valid_points :: int
  rejected_points :: int
  start_time :: "real option"
  last_batch_time :: "real option"
  latency_samples :: "real list"

record DataIngestionPipeline =
  running :: bool
  data_queue :: "MarketDataPoint list"
  batch_size :: int
  batch_timeout :: real
  validator :: DataQualityValidator
  kafka_streamer :: "KafkaStreamer option"
  postgres_storage :: "PostgreSQLStorage option"
  metrics :: metrics

text \<open>\<open>asyncio.Queue(maxsize=10000)\<close>.\<close>

definition maxsize :: nat where
  "maxsize = 10000"

text \<open>
  The constructor. The configuration gives the two batch settings, each with its default,
  and the two sinks as they were built: \<open>None\<close> when the sink is disabled or its client
  library is missing.
\<close>

record config =
  cfg_batch_size :: "int option"
  cfg_batch_timeout :: "real option"
  cfg_kafka :: "KafkaStreamer option"
  cfg_postgresql :: "PostgreSQLStorage option"

definition DataIngestionPipeline_init :: "config \<Rightarrow> DataIngestionPipeline" where
  "DataIngestionPipeline_init cfg =
     \<lparr>running = False,
      data_queue = [],
      batch_size = (case cfg_batch_size cfg of None \<Rightarrow> 100 | Some n \<Rightarrow> n),
      batch_timeout = (case cfg_batch_timeout cfg of None \<Rightarrow> 1 | Some t \<Rightarrow> t),
      validator = DataQualityValidator_init,
      kafka_streamer = cfg_kafka cfg,
      postgres_storage = cfg_postgresql cfg,
      metrics = \<lparr>total_processed = 0, valid_points = 0, rejected_points = 0,
                 start_time = None, last_batch_time = None, latency_samples = []\<rparr>\<rparr>"

subsection \<open>\<open>ingest_data_point\<close>\<close>

text \<open>
  The inputs of one call: the clock at entry, the current UTC time used to stamp a point
  that has no timestamp, the outcomes of the Kafka calls, and the clock when the latency is
  taken.
\<close>

record ingest_env =
  t_start :: real
  now_utc :: datetime
  kafka :: kafka_env
  t_end :: real

text \<open>
  A call either returns a boolean or is suspended in \<open>await self.data_queue.put(data_point)\<close>
  because the queue is full. The second component of the result is the caller's point object
  after the call: the assignment to \<open>data_point.timestamp\<close> writes into that object.
\<close>

datatype call_result = Returned bool | Suspended

definition stamp :: "datetime \<Rightarrow> MarketDataPoint \<Rightarrow> MarketDataPoint" where
  "stamp now data_point =
     (if timestamp data_point = None then data_point\<lparr>timestamp := Some now\<rparr> else data_point)"

text \<open>Everything after the \<open>put\<close> has gone through.\<close>

definition after_put ::
  "DataIngestionPipeline \<Rightarrow> ingest_env \<Rightarrow> MarketDataPoint \<Rightarrow> DataIngestionPipeline" where
  "after_put s env data_point =
     (let s1 = s\<lparr>data_queue := data_queue s @ [data_point]\<rparr>;
          s2 = (case kafka_streamer s1 of
                  None \<Rightarrow> s1
                | Some k \<Rightarrow>
                    s1\<lparr>kafka_streamer :=
                         Some (snd (publish_data k (kafka env)
                                      (''market_data_'' @ lower (symbol data_point)) data_point))\<rparr>);
          m = metrics s2;
          m1 = m\<lparr>total_processed := total_processed m + 1, valid_points := valid_points m + 1\<rparr>;
          latency_ms = (t_end env - t_start env) * 1000
      in s2\<lparr>metrics := m1\<lparr>latency_samples := deque_append 1000 (latency_samples m1) latency_ms\<rparr>\<rparr>)"

definition put_and_finish ::
  "DataIngestionPipeline \<Rightarrow> ingest_env \<Rightarrow> MarketDataPoint \<Rightarrow>
   call_result \<times> MarketDataPoint \<times> DataIngestionPipeline" where
  "put_and_finish s env data_point =
     (if length (data_queue s) < maxsize then (Returned True, data_point, after_put s env data_point)
      else (Suspended, data_point, s))"

definition ingest_data_point ::
  "DataIngestionPipeline \<Rightarrow> ingest_env \<Rightarrow> MarketDataPoint \<Rightarrow>
   call_result \<times> MarketDataPoint \<times> DataIngestionPipeline" where
  "ingest_data_point s env data_point =
     (case validate_price_data (validator s) data_point of
        (ok, v') \<Rightarrow>
          let s1 = s\<lparr>validator := v'\<rparr> in
          if \<not> ok then
            (Returned False, data_point,
             s1\<lparr>metrics := (metrics s1)\<lparr>rejected_points := rejected_points (metrics s1) + 1\<rparr>\<rparr>)
          else put_and_finish s1 env (stamp (now_utc env) data_point))"

subsection \<open>\<open>_batch_processor\<close>\<close>

text \<open>The two local variables of the coroutine.\<close>

record batch_processor =
  batch :: "MarketDataPoint list"
  last_flush :: real

text \<open>
  One pass through the loop body, from the moment \<open>wait_for\<close> has delivered a point or timed
  out (the queue was empty) to the end of the body. \<open>current_time\<close> is the clock read after
  the wait. The first component of the result is the batch that was flushed, if one was.
\<close>

definition should_flush :: "DataIngestionPipeline \<Rightarrow> batch_processor \<Rightarrow> real \<Rightarrow> bool" where
  "should_flush s bp current_time =
     (int (length (batch bp)) \<ge> batch_size s \<or>
      (batch bp \<noteq> [] \<and> current_time - last_flush bp \<ge> batch_timeout s))"

definition dequeue ::
  "DataIngestionPipeline \<Rightarrow> batch_processor \<Rightarrow> DataIngestionPipeline \<times> batch_processor" where
  "dequeue s bp =
     (case data_queue s of
        [] \<Rightarrow> (s, bp)
      | data_point # q \<Rightarrow> (s\<lparr>data_queue := q\<rparr>, bp\<lparr>batch := batch bp @ [data_point]\<rparr>))"

definition flush ::
  "DataIngestionPipeline \<Rightarrow> batch_processor \<Rightarrow> real \<Rightarrow> db_env \<Rightarrow>
   DataIngestionPipeline \<times> batch_processor" where
  "flush s bp current_time env =
     (let s1 = (case postgres_storage s of
                  None \<Rightarrow> s
                | Some st \<Rightarrow> s\<lparr>postgres_storage := Some (snd (store_batch st env (batch bp)))\<rparr>)
      in (s1\<lparr>metrics := (metrics s1)\<lparr>last_batch_time := Some current_time\<rparr>\<rparr>,
          \<lparr>batch = [], last_flush = current_time\<rparr>))"

definition batch_iteration ::
  "DataIngestionPipeline \<Rightarrow> batch_processor \<Rightarrow> real \<Rightarrow> db_env \<Rightarrow>
   MarketDataPoint list option \<times> DataIngestionPipeline \<times> batch_processor" where
  "batch_iteration s bp current_time env =
     (case dequeue s bp of
        (s1, bp1) \<Rightarrow>
          if should_flush s1 bp1 current_time \<and> batch bp1 \<noteq> []
          then (Some (batch bp1), flush s1 bp1 current_time env)
          else (None, s1, bp1))"

subsection \<open>\<open>get_metrics\<close>\<close>

record metrics_snapshot = metrics +
  throughput_per_sec :: real
  avg_latency_ms :: real
  max_latency_ms :: real
  queue_size :: nat

definition get_metrics :: "DataIngestionPipeline \<Rightarrow> real \<Rightarrow> metrics_snapshot" where
  "get_metrics s current_time =
     (let m = metrics s in
      \<lparr>total_processed = total_processed m,
       valid_points = valid_points m,
       rejected_points = rejected_points m,
       start_time = start_time m,
       last_batch_time = last_batch_time m,
       latency_samples = latency_samples m,
       throughput_per_sec =
         (case start_time m of
            None \<Rightarrow> 0
          | Some t0 \<Rightarrow>
              if t0 = 0 then 0
              else real_of_int (total_processed m) / max (current_time - t0) 1),
       avg_latency_ms =
         (if latency_samples m = [] then 0
          else sum_list (latency_samples m) / real (length (latency_samples m))),
       max_latency_ms = (if latency_samples m = [] then 0 else Max (set (latency_samples m))),
       queue_size = length (data_queue s)\<rparr>)"

subsection \<open>\<open>start\<close> and \<open>stop\<close>\<close>

text \<open>
  \<open>start\<close> returns the pipeline and whether \<open>asyncio.create_task\<close> was called for a new
  \<open>_batch_processor\<close>. \<open>stop\<close> computes the final metrics only to log them.
\<close>

definition start :: "DataIngestionPipeline \<Rightarrow> real \<Rightarrow> DataIngestionPipeline \<times> bool" where
  "start s now =
     (if running s then (s, False)
      else (s\<lparr>running := True, metrics := (metrics s)\<lparr>start_time := Some now\<rparr>\<rparr>, True))"

definition stop :: "DataIngestionPipeline \<Rightarrow> DataIngestionPipeline" where
  "stop s =
     (if \<not> running s then s
      else s\<lparr>running := False,
             kafka_streamer := map_option kafka_close (kafka_streamer s),
             postgres_storage := map_option storage_close (postgres_storage s)\<rparr>)"

section \<open>Executions\<close>

text \<open>
  The event loop runs one task at a time between suspension points, so an execution is a
  sequence of atomic steps on the pipeline, the calls suspended in \<open>put\<close>, and the
  \<open>_batch_processor\<close> tasks. A task is \<open>Created\<close> by \<open>start\<close>; its first step runs the two
  initialisations and the loop test; each later step is one pass through the loop body
  followed by the loop test. \<open>flushes\<close> records every flushed batch, oldest first.
\<close>

datatype task = Created | Waiting batch_processor | Done

record world =
  pipeline :: DataIngestionPipeline
  suspended :: "(ingest_env \<times> MarketDataPoint) list"
  tasks :: "task list"
  flushes :: "MarketDataPoint list list"

datatype event =
    Ingest ingest_env MarketDataPoint
  | Resume nat
  | Start real
  | Stop
  | Run nat real db_env

definition fresh :: "config \<Rightarrow> world" where
  "fresh cfg = \<lparr>pipeline = DataIngestionPipeline_init cfg, suspended = [], tasks = [], flushes = []\<rparr>"

definition run_task :: "world \<Rightarrow> nat \<Rightarrow> real \<Rightarrow> db_env \<Rightarrow> world" where
  "run_task w i now env =
     (if i \<ge> length (tasks w) then w
      else case tasks w ! i of
        Done \<Rightarrow> w
      | Created \<Rightarrow>
          w\<lparr>tasks := (tasks w)[i := (if running (pipeline w)
                                       then Waiting \<lparr>batch = [], last_flush = now\<rparr> else Done)]\<rparr>
      | Waiting bp \<Rightarrow>
          (case batch_iteration (pipeline w) bp now env of
             (fl, s', bp') \<Rightarrow>
               w\<lparr>pipeline := s',
                  tasks := (tasks w)[i := (if running s' then Waiting bp' else Done)],
                  flushes := flushes w @ (case fl of None \<Rightarrow> [] | Some b \<Rightarrow> [b])\<rparr>))"

fun step :: "world \<Rightarrow> event \<Rightarrow> world" where
  "step w (Ingest env data_point) =
     (case ingest_data_point (pipeline w) env data_point of
        (r, data_point', s') \<Rightarrow>
          w\<lparr>pipeline := s',
             suspended := suspended w @ (if r = Suspended then [(env, data_point')] else [])\<rparr>)"
| "step w (Resume i) =
     (if i \<ge> length (suspended w) then w
      else case suspended w ! i of
        (env, data_point) \<Rightarrow>
          (case put_and_finish (pipeline w) env data_point of
             (r, _, s') \<Rightarrow>
               if r = Suspended then w
               else w\<lparr>pipeline := s',
                       suspended := take i (suspended w) @ drop (Suc i) (suspended w)\<rparr>))"
| "step w (Start now) =
     (case start (pipeline w) now of
        (s', created) \<Rightarrow>
          w\<lparr>pipeline := s', tasks := tasks w @ (if created then [Created] else [])\<rparr>)"
| "step w Stop = w\<lparr>pipeline := stop (pipeline w)\<rparr>"
| "step w (Run i now env) = run_task w i now env"

definition run :: "world \<Rightarrow> event list \<Rightarrow> world" where
  "run w es = foldl step w es"

text \<open>
  The loop \<open>while self.running:\<close> of one task, with nothing else running in between: before
  each pass the loop test, then the loop body with its clock reading and storage outcome. The
  loop is left as soon as the test finds the pipeline not running, with no further pass and no
  flush of the batch in hand. The result lists the batches flushed.
\<close>

fun iterate ::
  "DataIngestionPipeline \<Rightarrow> batch_processor \<Rightarrow> (real \<times> db_env) list \<Rightarrow>
   MarketDataPoint list list \<times> DataIngestionPipeline \<times> batch_processor" where
  "iterate s bp [] = ([], s, bp)"
| "iterate s bp ((t, env) # passes) =
     (if \<not> running s then ([], s, bp)
      else case batch_iteration s bp t env of
        (fl, s', bp') \<Rightarrow>
          (case iterate s' bp' passes of
             (fls, s'', bp'') \<Rightarrow> ((case fl of None \<Rightarrow> [] | Some b \<Rightarrow> [b]) @ fls, s'', bp'')))"

section \<open>Invariants of executions\<close>

text \<open>Every price kept in a history was accepted, so it is positive.\<close>

definition hist_pos :: "DataQualityValidator \<Rightarrow> bool" where
  "hist_pos v = (\<forall>k h. price_history v k = Some h \<longrightarrow> (\<forall>x\<in>set h. 0 < x))"

definition counters_agree :: "DataIngestionPipeline \<Rightarrow> bool" where
  "counters_agree s = (total_processed (metrics s) = valid_points (metrics s))"

definition pipeline_inv :: "DataIngestionPipeline \<Rightarrow> bool" where
  "pipeline_inv s = (hist_pos (validator s) \<and> counters_agree s)"

text \<open>
  Between two passes a task holds fewer than \<open>batch_size\<close> points, and no flushed batch
  is longer than \<open>batch_size\<close>.
\<close>

definition task_ok :: "int \<Rightarrow> task \<Rightarrow> bool" where
  "task_ok n t = (case t of Waiting bp \<Rightarrow> int (length (batch bp)) < n | _ \<Rightarrow> True)"

definition batch_inv :: "int \<Rightarrow> world \<Rightarrow> bool" where
  "batch_inv n w =
     (batch_size (pipeline w) = n \<and> (\<forall>t\<in>set (tasks w). task_ok n t) \<and>
      (\<forall>b\<in>set (flushes w). int (length b) \<le> n))"

section \<open>Example inputs\<close>

text \<open>
  A configuration and points in the style of \<open>test_pipeline.py\<close>: no sinks, a batch size
  of 10, a batch timeout of half a second.
\<close>

definition example_time :: datetime where
  "example_time = \<lparr>year = 2024, month = 1, day = 2, hour = 3, minute = 4, second = 5,
                    microsecond = 0, dt_fold = 0,
                    tzinfo = Some (Timezone 0)\<rparr>"

definition example_point :: MarketDataPoint where
  "example_point = \<lparr>symbol = ''AAPL'', timestamp = Some example_time, price = 100, volume = 1000,
                     bid = None, ask = None, source = ''test'', data_type = ''price'',
                     metadata = None\<rparr>"








definition invalid_point :: MarketDataPoint where
  "invalid_point = example_point\<lparr>price := - 50\<rparr>"

definition unstamped_point :: MarketDataPoint where
  "unstamped_point = example_point\<lparr>timestamp := None\<rparr>"

definition example_env :: ingest_env where
  "example_env = \<lparr>t_start = 1000, now_utc = example_time,
                   kafka = \<lparr>create_topics_ok = True, send_ok = True\<rparr>, t_end = 1001\<rparr>"

definition example_config :: config where
  "example_config = \<lparr>cfg_batch_size = Some 10, cfg_batch_timeout = Some (1 / 2),
                      cfg_kafka = None, cfg_postgresql = None\<rparr>"

text \<open>A pipeline started at time 1000 that has ingested one valid point.\<close>

definition started_pipeline :: DataIngestionPipeline where
  "started_pipeline =
     snd (snd (ingest_data_point (fst (start (DataIngestionPipeline_init example_config) 1000))
                 example_env example_point))"

text \<open>
  A storage call in which nothing fails, one in which \<open>execute_values\<close> raises after it has
  sent one row, and one in which only \<open>putconn\<close> raises.
\<close>

definition example_db_env :: db_env where
  "example_db_env = \<lparr>getconn_ok = True, cursor_ok = True, execute_raises = None,
                      commit_ok = True, putconn_ok = True\<rparr>"



text \<open>A batch processor that has just started, at time 1000.\<close>

definition idle_processor :: batch_processor where
  "idle_processor = \<lparr>batch = [], last_flush = 1000\<rparr>"

text \<open>
  An execution: \<open>start\<close>, one valid point, the first step of the batch processor, and a pass
  one second later.
\<close>

definition example_events :: "event list" where
  "example_events = [Start 1000, Ingest example_env example_point, Run 0 1000 example_db_env,
                     Run 0 1001 example_db_env]"



text \<open>The test configuration with \<open>batch_size = 0\<close>.\<close>

definition zero_batch_config :: config where
  "zero_batch_config = example_config\<lparr>cfg_batch_size := Some 0\<rparr>"






section \<open>The shape of an ISO string\<close>






section \<open>Auxiliary facts\<close>

subsection \<open>Histories stay positive, counters stay equal\<close>

lemma set_deque_append: "set (deque_append n d x) \<subseteq> insert x (set d)"
  by (auto simp: deque_append_def Let_def dest: in_set_dropD)

lemma hist_pos_update:
  assumes "hist_pos v" "\<forall>x\<in>set h. 0 < x"
  shows "hist_pos (v\<lparr>price_history := (price_history v)(k \<mapsto> h)\<rparr>)"
  using assms by (simp add: hist_pos_def)

lemma history_pos:
  assumes "hist_pos v"
  shows "\<forall>x\<in>set (case price_history v k of None \<Rightarrow> [] | Some h \<Rightarrow> h). 0 < x"
  using assms by (cases "price_history v k") (auto simp: hist_pos_def)

lemma hist_pos_validate:
  assumes "hist_pos v"
  shows "hist_pos (snd (validate_price_data v p))"
proof (cases "price p \<le> 0 \<or> volume p < 0")
  case True
  then show ?thesis using assms by (auto simp: validate_price_data_def)
next
  case False
  define history where "history = (case price_history v (symbol p) of None \<Rightarrow> [] | Some h \<Rightarrow> h)"
  have h: "\<forall>x\<in>set history. 0 < x"
    unfolding history_def using assms by (rule history_pos)
  have "\<forall>x\<in>set (deque_append (max_history v) history (price p)). 0 < x"
    using h False set_deque_append[of "max_history v" history "price p"] by auto
  then have a: "hist_pos (v\<lparr>price_history := (price_history v)
       (symbol p \<mapsto> deque_append (max_history v) history (price p))\<rparr>)"
    using assms by (rule hist_pos_update[rotated])
  have b: "hist_pos (v\<lparr>price_history := (price_history v)(symbol p \<mapsto> history)\<rparr>)"
    using assms h by (rule hist_pos_update)
  show ?thesis
    using False a b unfolding validate_price_data_def Let_def history_def[symmetric]
    by simp
qed



lemma after_put_frame:
  "validator (after_put s env p) = validator s"
  "batch_size (after_put s env p) = batch_size s"
  "running (after_put s env p) = running s"
  "total_processed (metrics (after_put s env p)) = total_processed (metrics s) + 1"
  "valid_points (metrics (after_put s env p)) = valid_points (metrics s) + 1"
  "rejected_points (metrics (after_put s env p)) = rejected_points (metrics s)"
  "data_queue (after_put s env p) = data_queue s @ [p]"
  by (simp_all add: after_put_def Let_def split: option.splits)

lemma pipeline_inv_put_and_finish:
  "pipeline_inv s \<Longrightarrow> pipeline_inv (snd (snd (put_and_finish s env p)))"
  by (simp add: put_and_finish_def pipeline_inv_def counters_agree_def after_put_frame)

lemma pipeline_inv_ingest:
  assumes "pipeline_inv s"
  shows "pipeline_inv (snd (snd (ingest_data_point s env p)))"
proof -
  obtain ok v' where v: "validate_price_data (validator s) p = (ok, v')"
    by (cases "validate_price_data (validator s) p") auto
  have hp: "hist_pos v'"
    using hist_pos_validate[of "validator s" p] assms v by (simp add: pipeline_inv_def)
  have s1: "pipeline_inv (s\<lparr>validator := v'\<rparr>)"
    using assms hp by (simp add: pipeline_inv_def counters_agree_def)
  show ?thesis
  proof (cases ok)
    case True
    then show ?thesis
      using v pipeline_inv_put_and_finish[OF s1] by (simp add: ingest_data_point_def)
  next
    case False
    then show ?thesis
      using v s1 by (simp add: ingest_data_point_def pipeline_inv_def counters_agree_def)
  qed
qed

lemma pipeline_inv_start: "pipeline_inv s \<Longrightarrow> pipeline_inv (fst (start s now))"
  by (simp add: start_def pipeline_inv_def counters_agree_def)

lemma pipeline_inv_stop: "pipeline_inv s \<Longrightarrow> pipeline_inv (stop s)"
  by (simp add: stop_def pipeline_inv_def counters_agree_def)

lemma dequeue_frame:
  "validator (fst (dequeue s bp)) = validator s"
  "batch_size (fst (dequeue s bp)) = batch_size s"
  "batch_timeout (fst (dequeue s bp)) = batch_timeout s"
  "running (fst (dequeue s bp)) = running s"
  "metrics (fst (dequeue s bp)) = metrics s"
  "last_flush (snd (dequeue s bp)) = last_flush bp"
  by (simp_all add: dequeue_def split: list.splits)

lemma flush_frame:
  "validator (fst (flush s bp t env)) = validator s"
  "batch_size (fst (flush s bp t env)) = batch_size s"
  "running (fst (flush s bp t env)) = running s"
  "data_queue (fst (flush s bp t env)) = data_queue s"
  "total_processed (metrics (fst (flush s bp t env))) = total_processed (metrics s)"
  "valid_points (metrics (fst (flush s bp t env))) = valid_points (metrics s)"
  "snd (flush s bp t env) = \<lparr>batch = [], last_flush = t\<rparr>"
  by (simp_all add: flush_def Let_def split: option.splits)

lemma pipeline_inv_batch_iteration:
  "pipeline_inv s \<Longrightarrow> pipeline_inv (fst (snd (batch_iteration s bp t env)))"
  by (simp add: batch_iteration_def pipeline_inv_def counters_agree_def dequeue_frame flush_frame
      split: prod.splits) (metis dequeue_frame(1,5) fst_conv)

lemma pipeline_inv_step:
  assumes "pipeline_inv (pipeline w)"
  shows "pipeline_inv (pipeline (step w e))"
proof (cases e)
  case (Ingest env p)
  then show ?thesis
    using pipeline_inv_ingest[OF assms, of env p] by (auto split: prod.splits)
next
  case (Resume i)
  show ?thesis
  proof (cases "i \<ge> length (suspended w)")
    case True
    then show ?thesis using Resume assms by simp
  next
    case False
    obtain env p where ep: "suspended w ! i = (env, p)" by (cases "suspended w ! i") auto
    show ?thesis
      using Resume False ep assms pipeline_inv_put_and_finish[OF assms, of env p]
      by (auto split: prod.splits)
  qed
next
  case (Start now)
  then show ?thesis
    using pipeline_inv_start[OF assms, of now] by (auto split: prod.splits)
next
  case Stop
  then show ?thesis using pipeline_inv_stop[OF assms] by simp
next
  case (Run i now env)
  show ?thesis
  proof (cases "i < length (tasks w)")
    case False
    then show ?thesis using Run assms by (simp add: run_task_def)
  next
    case True
    show ?thesis
    proof (cases "tasks w ! i")
      case Created
      then show ?thesis using Run True assms by (simp add: run_task_def)
    next
      case (Waiting bp)
      then show ?thesis
        using Run True pipeline_inv_batch_iteration[OF assms, of bp now env]
        by (auto simp: run_task_def split: prod.splits)
    next
      case Done
      then show ?thesis using Run True assms by (simp add: run_task_def)
    qed
  qed
qed

lemma pipeline_inv_run:
  "pipeline_inv (pipeline w) \<Longrightarrow> pipeline_inv (pipeline (run w es))"
  unfolding run_def by (induction es arbitrary: w) (simp_all add: pipeline_inv_step)

lemma pipeline_inv_fresh: "pipeline_inv (pipeline (fresh cfg))"
  by (simp add: fresh_def DataIngestionPipeline_init_def pipeline_inv_def counters_agree_def
      hist_pos_def DataQualityValidator_init_def)

subsection \<open>One pass of the batch processor\<close>

lemma dequeue_batch_length:
  "length (batch (snd (dequeue s bp))) \<le> Suc (length (batch bp))"
  by (simp add: dequeue_def split: list.splits)

lemma batch_iteration_frame:
  "batch_size (fst (snd (batch_iteration s bp t env))) = batch_size s"
  "running (fst (snd (batch_iteration s bp t env))) = running s"
  by (simp_all add: batch_iteration_def dequeue_frame flush_frame split: prod.splits)
     (metis dequeue_frame(2) fst_conv, metis dequeue_frame(4) fst_conv)

lemma batch_iteration_flush_iff:
  "(fst (batch_iteration s bp t env) \<noteq> None) =
     (batch (snd (dequeue s bp)) \<noteq> [] \<and>
      (batch_size s \<le> int (length (batch (snd (dequeue s bp)))) \<or>
       batch_timeout s \<le> t - last_flush bp))"
  using dequeue_frame(2,3,6)[of s bp]
  by (cases "dequeue s bp") (auto simp: batch_iteration_def should_flush_def)

lemma batch_iteration_flushed:
  assumes "fst (batch_iteration s bp t env) \<noteq> None"
  shows "fst (batch_iteration s bp t env) = Some (batch (snd (dequeue s bp)))"
    and "snd (snd (batch_iteration s bp t env)) = \<lparr>batch = [], last_flush = t\<rparr>"
    and "data_queue (fst (snd (batch_iteration s bp t env))) = data_queue (fst (dequeue s bp))"
    and "last_batch_time (metrics (fst (snd (batch_iteration s bp t env)))) = Some t"
  using assms
  by (cases "dequeue s bp"; simp add: batch_iteration_def flush_frame flush_def Let_def
      split: if_splits option.splits)+

lemma batch_iteration_not_flushed:
  assumes "fst (batch_iteration s bp t env) = None"
  shows "snd (batch_iteration s bp t env) = dequeue s bp"
  using assms
  by (cases "dequeue s bp") (auto simp: batch_iteration_def split: if_splits)

lemma batch_iteration_bound:
  assumes "1 \<le> batch_size s" "int (length (batch bp)) < batch_size s"
  shows "int (length (batch (snd (snd (batch_iteration s bp t env))))) < batch_size s"
    and "fst (batch_iteration s bp t env) = Some b \<Longrightarrow> int (length b) \<le> batch_size s"
proof -
  have le: "int (length (batch (snd (dequeue s bp)))) \<le> batch_size s"
    using dequeue_batch_length[of s bp] assms(2) by linarith
  show "int (length (batch (snd (snd (batch_iteration s bp t env))))) < batch_size s"
  proof (cases "fst (batch_iteration s bp t env)")
    case None
    then have "\<not> (batch (snd (dequeue s bp)) \<noteq> [] \<and>
      (batch_size s \<le> int (length (batch (snd (dequeue s bp)))) \<or>
       batch_timeout s \<le> t - last_flush bp))"
      using batch_iteration_flush_iff[of s bp t env] by simp
    then have "int (length (batch (snd (dequeue s bp)))) < batch_size s"
      using assms(1) by auto
    then show ?thesis using batch_iteration_not_flushed[OF None] by simp
  next
    case (Some a)
    then show ?thesis using batch_iteration_flushed(2)[of s bp t env] assms(1) by simp
  qed
  show "fst (batch_iteration s bp t env) = Some b \<Longrightarrow> int (length b) \<le> batch_size s"
    using batch_iteration_flushed(1)[of s bp t env] le by simp
qed

lemma ingest_frame:
  "batch_size (snd (snd (ingest_data_point s env p))) = batch_size s"
  by (cases "validate_price_data (validator s) p")
     (simp add: ingest_data_point_def put_and_finish_def after_put_frame Let_def)

lemma put_and_finish_frame:
  "batch_size (snd (snd (put_and_finish s env p))) = batch_size s"
  by (simp add: put_and_finish_def after_put_frame)

lemma start_frame: "batch_size (fst (start s now)) = batch_size s"
  by (simp add: start_def)

lemma stop_frame: "batch_size (stop s) = batch_size s"
  by (simp add: stop_def)

lemma tasks_update_ok:
  assumes "\<forall>t\<in>set ts. task_ok n t" "task_ok n t'"
  shows "\<forall>t\<in>set (ts[i := t']). task_ok n t"
  using assms set_update_subset_insert[of ts i t'] by auto

lemma batch_inv_run_task:
  assumes "1 \<le> n" "batch_inv n w"
  shows "batch_inv n (run_task w i now env)"
proof (cases "i < length (tasks w)")
  case False
  then show ?thesis using assms(2) by (simp add: run_task_def)
next
  case True
  show ?thesis
  proof (cases "tasks w ! i")
    case Created
    have "task_ok n (if running (pipeline w) then Waiting \<lparr>batch = [], last_flush = now\<rparr> else Done)"
      using assms(1) by (simp add: task_ok_def)
    then show ?thesis
      using Created True assms(2) tasks_update_ok[of "tasks w" n]
      by (simp add: run_task_def batch_inv_def)
  next
    case Done
    then show ?thesis using True assms(2) by (simp add: run_task_def)
  next
    case (Waiting bp)
    obtain fl s' bp' where it: "batch_iteration (pipeline w) bp now env = (fl, s', bp')"
      by (cases "batch_iteration (pipeline w) bp now env") auto
    have bs: "batch_size (pipeline w) = n" using assms(2) by (simp add: batch_inv_def)
    have "task_ok n (Waiting bp)"
      using assms(2) True Waiting nth_mem[of i "tasks w"] by (auto simp: batch_inv_def)
    then have small: "int (length (batch bp)) < batch_size (pipeline w)"
      using bs by (simp add: task_ok_def)
    have one: "1 \<le> batch_size (pipeline w)" using assms(1) bs by simp
    have b1: "int (length (batch bp')) < n"
      using batch_iteration_bound(1)[OF one small, of now env] it bs by simp
    have b2: "\<And>b. fl = Some b \<Longrightarrow> int (length b) \<le> n"
      using batch_iteration_bound(2)[OF one small, of now env] it bs by simp
    have b3: "batch_size s' = n"
      using batch_iteration_frame(1)[of "pipeline w" bp now env] it bs by simp
    have "task_ok n (if running s' then Waiting bp' else Done)"
      using b1 by (simp add: task_ok_def)
    then have t: "\<forall>t\<in>set ((tasks w)[i := (if running s' then Waiting bp' else Done)]). task_ok n t"
      using assms(2) tasks_update_ok[of "tasks w" n] by (simp add: batch_inv_def)
    have f: "\<forall>b\<in>set (flushes w @ (case fl of None \<Rightarrow> [] | Some b \<Rightarrow> [b])). int (length b) \<le> n"
      using assms(2) b2 by (cases fl) (auto simp: batch_inv_def)
    show ?thesis
      using Waiting True it b3 t f by (simp add: run_task_def batch_inv_def)
  qed
qed

lemma batch_inv_step:
  assumes "1 \<le> n" "batch_inv n w"
  shows "batch_inv n (step w e)"
proof (cases e)
  case (Ingest env p)
  then show ?thesis
    using assms(2) ingest_frame[of "pipeline w" env p]
    by (auto simp: batch_inv_def split: prod.splits)
next
  case (Resume i)
  show ?thesis
  proof (cases "i \<ge> length (suspended w)")
    case True
    then show ?thesis using Resume assms(2) by simp
  next
    case False
    obtain env p where ep: "suspended w ! i = (env, p)" by (cases "suspended w ! i") auto
    show ?thesis
      using Resume False ep assms(2) put_and_finish_frame[of "pipeline w" env p]
      by (auto simp: batch_inv_def split: prod.splits)
  qed
next
  case (Start now)
  then show ?thesis
    using assms(2) start_frame[of "pipeline w" now]
    by (auto simp: batch_inv_def task_ok_def split: prod.splits)
next
  case Stop
  then show ?thesis using assms(2) by (simp add: batch_inv_def stop_frame)
next
  case (Run i now env)
  then show ?thesis using batch_inv_run_task[OF assms] by simp
qed

lemma batch_inv_run:
  "1 \<le> n \<Longrightarrow> batch_inv n w \<Longrightarrow> batch_inv n (run w es)"
  unfolding run_def by (induction es arbitrary: w) (simp_all add: batch_inv_step)

lemma batch_inv_fresh: "batch_inv (batch_size (pipeline (fresh cfg))) (fresh cfg)"
  by (simp add: batch_inv_def fresh_def)

subsection \<open>Sequences of passes\<close>




lemma iterate_Cons:
  assumes "running s" and "batch_iteration s bp t env = (fl, s', bp')"
  shows "iterate s bp ((t, env) # passes) =
           ((case fl of None \<Rightarrow> [] | Some b \<Rightarrow> [b]) @ fst (iterate s' bp' passes),
            snd (iterate s' bp' passes))"
  using assms by (simp split: prod.splits)











text \<open>
  In an execution, the passes of a task that is waiting in the loop of a running pipeline,
  with no other event in between, are those of \<open>iterate\<close>.
\<close>

lemma run_passes:
  assumes "i < length (tasks w)" and "tasks w ! i = Waiting bp" and "running (pipeline w)"
  shows "run w (map (\<lambda>(t, env). Run i t env) passes) =
           w\<lparr>pipeline := fst (snd (iterate (pipeline w) bp passes)),
              tasks := (tasks w)[i := Waiting (snd (snd (iterate (pipeline w) bp passes)))],
              flushes := flushes w @ fst (iterate (pipeline w) bp passes)\<rparr>"
  using assms
proof (induction passes arbitrary: w bp)
  case Nil
  have "(tasks w)[i := Waiting bp] = tasks w"
    using Nil(2) list_update_id[of "tasks w" i] by simp
  then show ?case by (simp add: run_def)
next
  case (Cons a passes)
  obtain t env where a: "a = (t, env)" by (cases a) auto
  obtain fl s' bp' where it: "batch_iteration (pipeline w) bp t env = (fl, s', bp')"
    by (cases "batch_iteration (pipeline w) bp t env") auto
  have r: "running s'"
    using batch_iteration_frame(2)[of "pipeline w" bp t env] it Cons.prems(3) by simp
  define w1 where "w1 = w\<lparr>pipeline := s', tasks := (tasks w)[i := Waiting bp'],
                           flushes := flushes w @ (case fl of None \<Rightarrow> [] | Some b \<Rightarrow> [b])\<rparr>"
  have st: "step w (Run i t env) = w1"
    using Cons.prems(1,2) it r by (simp add: run_task_def w1_def)
  have w1: "i < length (tasks w1)" "tasks w1 ! i = Waiting bp'" "running (pipeline w1)"
    using Cons.prems(1) r by (simp_all add: w1_def)
  have "run w (map (\<lambda>(t, env). Run i t env) (a # passes)) =
          run w1 (map (\<lambda>(t, env). Run i t env) passes)"
    using st by (simp add: run_def a)
  also have "\<dots> = w1\<lparr>pipeline := fst (snd (iterate (pipeline w1) bp' passes)),
              tasks := (tasks w1)[i := Waiting (snd (snd (iterate (pipeline w1) bp' passes)))],
              flushes := flushes w1 @ fst (iterate (pipeline w1) bp' passes)\<rparr>"
    using w1 by (rule Cons.IH)
  also have "\<dots> = w\<lparr>pipeline := fst (snd (iterate (pipeline w) bp (a # passes))),
              tasks := (tasks w)[i := Waiting (snd (snd (iterate (pipeline w) bp (a # passes))))],
              flushes := flushes w @ fst (iterate (pipeline w) bp (a # passes))\<rparr>"
    unfolding a iterate_Cons[OF Cons.prems(3) it] by (simp add: w1_def)
  finally show ?case .
qed

subsection \<open>The storage transaction\<close>





subsection \<open>Valid points and the full queue\<close>














lemma batch_size_run: "batch_size (pipeline (run (fresh cfg) es)) = batch_size (pipeline (fresh cfg))"
proof (cases "1 \<le> batch_size (pipeline (fresh cfg))")
  case True
  then show ?thesis using batch_inv_run[OF True batch_inv_fresh, of es] by (simp add: batch_inv_def)
next
  case False
  have "\<And>w e. batch_size (pipeline (step w e)) = batch_size (pipeline w)"
  proof -
    fix w e show "batch_size (pipeline (step w e)) = batch_size (pipeline w)"
    proof (cases e)
      case (Ingest env p)
      then show ?thesis using ingest_frame[of "pipeline w" env p] by (auto split: prod.splits)
    next
      case (Resume i)
      show ?thesis
      proof (cases "i \<ge> length (suspended w)")
        case True then show ?thesis using Resume by simp
      next
        case False
        obtain env p where ep: "suspended w ! i = (env, p)" by (cases "suspended w ! i") auto
        show ?thesis using Resume False ep put_and_finish_frame[of "pipeline w" env p]
          by (auto split: prod.splits)
      qed
    next
      case (Start now)
      then show ?thesis using start_frame[of "pipeline w" now] by (auto split: prod.splits)
    next
      case Stop then show ?thesis by (simp add: stop_frame)
    next
      case (Run i now env)
      show ?thesis
      proof (cases "i < length (tasks w)")
        case False then show ?thesis using Run by (simp add: run_task_def)
      next
        case True
        show ?thesis
        proof (cases "tasks w ! i")
          case Created then show ?thesis using Run True by (simp add: run_task_def)
        next
          case Done then show ?thesis using Run True by (simp add: run_task_def)
        next
          case (Waiting bp)
          then show ?thesis
            using Run True batch_iteration_frame(1)[of "pipeline w" bp now env]
            by (auto simp: run_task_def split: prod.splits)
        qed
      qed
    qed
  qed
  then have "\<And>w. batch_size (pipeline (run w es)) = batch_size (pipeline w)"
    unfolding run_def by (induction es) simp_all
  then show ?thesis .
qed

subsection \<open>The example executions\<close>

lemmas eval_defs = run_def fresh_def DataIngestionPipeline_init_def example_config_def
  ingest_data_point_def validate_price_data_def DataQualityValidator_init_def
  example_point_def put_and_finish_def after_put_def maxsize_def stamp_def Let_def
  deque_append_def example_env_def start_def run_task_def batch_iteration_def dequeue_def
  should_flush_def flush_def example_db_env_def example_events_def

lemma example_events_flushes:
  "flushes (run (fresh example_config) example_events) = [[example_point]]"
  "batch_size (pipeline (run (fresh example_config) example_events)) = 10"
  "tasks (run (fresh example_config) example_events) = [Waiting \<lparr>batch = [], last_flush = 1001\<rparr>]"
  by (simp_all add: eval_defs)



lemma zero_batch_flushes:
  "flushes (run (fresh zero_batch_config) example_events) = [[example_point]]"
  "batch_size (pipeline (run (fresh zero_batch_config) example_events)) = 0"
  by (simp_all add: eval_defs zero_batch_config_def)



subsection \<open>\<open>fromisoformat\<close> inverts \<open>isoformat\<close>\<close>














































subsection \<open>Ingesting into a pipeline that is not running\<close>





section \<open>Properties\<close>

subsection \<open>Rejection of out-of-domain points\<close>

text \<open>
  C1. For every data point with \<open>price <= 0\<close> or \<open>volume < 0\<close>, in every state of the
  pipeline, \<open>ingest_data_point\<close> returns \<open>False\<close> (a normal return: no exception reaches the
  caller and the call is not suspended), the point is untouched, and the pipeline afterwards
  differs from the pipeline before only in \<open>rejected_points\<close>, which is larger by exactly 1;
  in particular \<open>valid_points\<close> is unchanged.
\<close>

theorem ingest_rejects_invalid:
  assumes "price p \<le> 0 \<or> volume p < 0"
  shows "ingest_data_point s env p =
           (Returned False, p,
            s\<lparr>metrics := (metrics s)\<lparr>rejected_points := rejected_points (metrics s) + 1\<rparr>\<rparr>)"
proof -
  have "validate_price_data (validator s) p = (False, validator s)"
    using assms by (auto simp: validate_price_data_def)
  then show ?thesis by (simp add: ingest_data_point_def)
qed

theorem ingest_rejects_invalid_witness:
  "(price invalid_point \<le> 0 \<or> volume invalid_point < 0) \<and>
   fst (ingest_data_point (DataIngestionPipeline_init example_config) example_env invalid_point)
     = Returned False \<and>
   rejected_points (metrics (snd (snd (ingest_data_point
      (DataIngestionPipeline_init example_config) example_env invalid_point)))) = 1 \<and>
   valid_points (metrics (snd (snd (ingest_data_point
      (DataIngestionPipeline_init example_config) example_env invalid_point)))) = 0"
proof -
  have h: "price invalid_point \<le> 0 \<or> volume invalid_point < 0"
    by (simp add: invalid_point_def example_point_def)
  show ?thesis
    using h ingest_rejects_invalid[OF h, of "DataIngestionPipeline_init example_config" example_env]
    by (simp add: DataIngestionPipeline_init_def)
qed

subsection \<open>Acceptance of valid points\<close>




subsection \<open>The flush rule of the batch processor\<close>

text \<open>
  C4, as the code has it. Let \<open>batch_size\<close> be at least 1, and let \<open>s\<close> be any state
  reached by an execution from a fresh pipeline. In a pass through the loop body, a flush
  occurs exactly when the batch, after the dequeue of this pass, has reached \<open>batch_size\<close>
  points, or is not empty while the time since the last flush is at least \<open>batch_timeout\<close>.
  On a flush the whole batch is handed over, the batch is cleared and the flush timer is set
  to the current time; the task's state after the pass does not depend on the outcome of the
  storage calls. No batch flushed in the execution holds more than \<open>batch_size\<close> points.
\<close>

theorem batch_flush_rule:
  assumes "1 \<le> batch_size (pipeline (fresh cfg))" and "s = pipeline (run (fresh cfg) es)"
  shows "(fst (batch_iteration s bp t env) \<noteq> None) =
           (batch_size s \<le> int (length (batch (snd (dequeue s bp)))) \<or>
            (batch (snd (dequeue s bp)) \<noteq> [] \<and> batch_timeout s \<le> t - last_flush bp)) \<and>
         (fst (batch_iteration s bp t env) \<noteq> None \<longrightarrow>
            fst (batch_iteration s bp t env) = Some (batch (snd (dequeue s bp))) \<and>
            snd (snd (batch_iteration s bp t env)) = \<lparr>batch = [], last_flush = t\<rparr>) \<and>
         snd (snd (batch_iteration s bp t env)) = snd (snd (batch_iteration s bp t env')) \<and>
         (\<forall>b\<in>set (flushes (run (fresh cfg) es)). int (length b) \<le> batch_size s)"
proof -
  have bs: "batch_size s = batch_size (pipeline (fresh cfg))"
    unfolding assms(2) by (rule batch_size_run)
  have one: "1 \<le> batch_size s" using assms(1) bs by simp
  have iff: "(fst (batch_iteration s bp t env) \<noteq> None) =
           (batch_size s \<le> int (length (batch (snd (dequeue s bp)))) \<or>
            (batch (snd (dequeue s bp)) \<noteq> [] \<and> batch_timeout s \<le> t - last_flush bp))"
    using batch_iteration_flush_iff[of s bp t env] one by auto
  have iff': "(fst (batch_iteration s bp t env') \<noteq> None) = (fst (batch_iteration s bp t env) \<noteq> None)"
    by (simp only: batch_iteration_flush_iff)
  have cl: "fst (batch_iteration s bp t env) \<noteq> None \<longrightarrow>
            fst (batch_iteration s bp t env) = Some (batch (snd (dequeue s bp))) \<and>
            snd (snd (batch_iteration s bp t env)) = \<lparr>batch = [], last_flush = t\<rparr>"
    using batch_iteration_flushed(1,2)[of s bp t env] by blast
  have ind: "snd (snd (batch_iteration s bp t env)) = snd (snd (batch_iteration s bp t env'))"
  proof (cases "fst (batch_iteration s bp t env) = None")
    case True
    then have "fst (batch_iteration s bp t env') = None" using iff' by simp
    then show ?thesis
      using batch_iteration_not_flushed[OF True] batch_iteration_not_flushed[of s bp t env'] by simp
  next
    case False
    then have "fst (batch_iteration s bp t env') \<noteq> None" using iff' by simp
    then show ?thesis
      using batch_iteration_flushed(2)[OF False] batch_iteration_flushed(2)[of s bp t env'] by simp
  qed
  have fl: "\<forall>b\<in>set (flushes (run (fresh cfg) es)). int (length b) \<le> batch_size s"
    using batch_inv_run[OF assms(1) batch_inv_fresh, of es] bs by (simp add: batch_inv_def)
  show ?thesis using iff cl ind fl by blast
qed

theorem batch_flush_rule_witness:
  "1 \<le> batch_size (pipeline (fresh example_config)) \<and>
   flushes (run (fresh example_config) example_events) = [[example_point]] \<and>
   int (length [example_point]) \<le>
     batch_size (pipeline (run (fresh example_config) example_events)) \<and>
   fst (batch_iteration (pipeline (run (fresh example_config) example_events))
          \<lparr>batch = [example_point], last_flush = 1001\<rparr> 1002 example_db_env) \<noteq> None \<and>
   snd (snd (batch_iteration (pipeline (run (fresh example_config) example_events))
          \<lparr>batch = [example_point], last_flush = 1001\<rparr> 1002 example_db_env)) =
     \<lparr>batch = [], last_flush = 1002\<rparr>"
proof -
  have one: "1 \<le> batch_size (pipeline (fresh example_config))"
    by (simp add: fresh_def DataIngestionPipeline_init_def example_config_def)
  have dq: "dequeue (pipeline (run (fresh example_config) example_events))
              \<lparr>batch = [example_point], last_flush = 1001\<rparr> =
            (pipeline (run (fresh example_config) example_events),
             \<lparr>batch = [example_point], last_flush = 1001\<rparr>)"
    by (simp add: eval_defs)
  have bt: "batch_timeout (pipeline (run (fresh example_config) example_events)) = 1 / 2"
    by (simp add: eval_defs)
  show ?thesis
    using one
      batch_flush_rule[OF one refl, of example_events
        "\<lparr>batch = [example_point], last_flush = 1001\<rparr>" 1002 example_db_env example_db_env]
    by (simp add: dq bt example_events_flushes)
qed

text \<open>
  C4 as it is stated fails for \<open>batch_size = 0\<close>, which the constructor accepts. A pass that
  finds the queue and the batch empty does not flush although the batch length has reached
  \<open>batch_size\<close> (the guard \<open>if should_flush and batch\<close>), and every dequeued point is flushed
  as a batch of one point, more than \<open>batch_size\<close>.
\<close>

theorem batch_size_zero_counterexample:
  "batch_size (pipeline (fresh zero_batch_config)) = 0 \<and>
   batch_size (pipeline (fresh zero_batch_config)) \<le>
     int (length (batch (snd (dequeue (pipeline (fresh zero_batch_config)) idle_processor)))) \<and>
   fst (batch_iteration (pipeline (fresh zero_batch_config)) idle_processor 1000 example_db_env)
     = None \<and>
   flushes (run (fresh zero_batch_config) example_events) = [[example_point]] \<and>
   \<not> int (length [example_point]) \<le>
       batch_size (pipeline (run (fresh zero_batch_config) example_events))"
  by (simp add: zero_batch_flushes)
     (simp add: fresh_def DataIngestionPipeline_init_def zero_batch_config_def example_config_def
        dequeue_def batch_iteration_def should_flush_def idle_processor_def)

subsection \<open>Failed batches\<close>




subsection \<open>Throughput in the metrics snapshot\<close>

text \<open>
  C6, as the code has it. For every call to \<open>get_metrics\<close> on a pipeline whose
  \<open>start_time\<close> is set (and not zero), \<open>throughput_per_sec\<close> is \<open>total_processed\<close> divided by
  \<open>max(elapsed, 1)\<close>, where \<open>elapsed\<close> is the number of seconds since \<open>start_time\<close>. It is the
  ratio \<open>total_processed / elapsed\<close> when at least one second has elapsed, and
  \<open>total_processed\<close> itself before that.
\<close>

theorem throughput_per_sec_clamped:
  assumes "start_time (metrics s) = Some t0" and "t0 \<noteq> 0"
  shows "throughput_per_sec (get_metrics s now) =
           real_of_int (total_processed (metrics s)) / max (now - t0) 1 \<and>
         (1 \<le> now - t0 \<longrightarrow>
            throughput_per_sec (get_metrics s now) =
              real_of_int (total_processed (metrics s)) / (now - t0)) \<and>
         (now - t0 < 1 \<longrightarrow>
            throughput_per_sec (get_metrics s now) = real_of_int (total_processed (metrics s)))"
  using assms by (simp add: get_metrics_def Let_def max_def)

lemma started_pipeline_metrics:
  "start_time (metrics started_pipeline) = Some 1000"
  "total_processed (metrics started_pipeline) = 1"
  by (simp_all add: started_pipeline_def start_def DataIngestionPipeline_init_def
      example_config_def ingest_data_point_def validate_price_data_def
      DataQualityValidator_init_def example_point_def put_and_finish_def after_put_def
      maxsize_def stamp_def Let_def)

theorem throughput_per_sec_clamped_witness:
  "start_time (metrics started_pipeline) = Some 1000 \<and> (1000::real) \<noteq> 0 \<and>
   throughput_per_sec (get_metrics started_pipeline 1004) = 1 / 4 \<and>
   throughput_per_sec (get_metrics started_pipeline (2001 / 2)) = 1"
  using throughput_per_sec_clamped[of started_pipeline 1000 1004]
        throughput_per_sec_clamped[of started_pipeline 1000 "2001 / 2"]
  by (simp add: started_pipeline_metrics)

text \<open>
  C6 as it is stated fails half a second after the start: one point has been processed, the
  reference ratio is \<open>1 / 0.5 = 2\<close>, and \<open>get_metrics\<close> reports 1.
\<close>

theorem throughput_ratio_counterexample:
  "start_time (metrics started_pipeline) = Some 1000 \<and>
   throughput_per_sec (get_metrics started_pipeline (2001 / 2)) \<noteq>
     real_of_int (total_processed (metrics started_pipeline)) / (2001 / 2 - 1000)"
  by (simp add: get_metrics_def Let_def started_pipeline_metrics)

subsection \<open>What a call does to the point it is given\<close>

text \<open>
  C7, as the code has it. \<open>ingest_data_point\<close> changes no field of its point other than
  \<open>timestamp\<close>, and that one only when the point is accepted by the validator and has no
  timestamp: the current UTC time is then written into the caller's object. A point whose
  timestamp is set, and a rejected point, are field for field the same after the call. The
  point that is queued is the caller's object after the call. Validation, \<open>to_dict\<close>,
  \<open>publish_data\<close> and \<open>store_batch\<close> only read the point: they have no point among their
  results.
\<close>

theorem ingest_point_after_call:
  "fst (snd (ingest_data_point s env p)) =
     (if fst (validate_price_data (validator s) p) \<and> timestamp p = None
      then p\<lparr>timestamp := Some (now_utc env)\<rparr> else p) \<and>
   (timestamp p \<noteq> None \<longrightarrow> fst (snd (ingest_data_point s env p)) = p) \<and>
   (fst (ingest_data_point s env p) = Returned True \<longrightarrow>
      last (data_queue (snd (snd (ingest_data_point s env p)))) =
        fst (snd (ingest_data_point s env p)))"
  by (cases "validate_price_data (validator s) p")
     (simp add: ingest_data_point_def put_and_finish_def stamp_def after_put_frame Let_def)

theorem ingest_point_after_call_witness:
  "timestamp example_point \<noteq> None \<and>
   fst (snd (ingest_data_point (DataIngestionPipeline_init example_config) example_env
               example_point)) = example_point \<and>
   fst (snd (ingest_data_point (DataIngestionPipeline_init example_config) example_env
               unstamped_point)) = unstamped_point\<lparr>timestamp := Some example_time\<rparr>"
proof -
  have "fst (validate_price_data (validator (DataIngestionPipeline_init example_config))
          unstamped_point)"
    by (simp add: validate_price_data_def DataIngestionPipeline_init_def unstamped_point_def
        example_point_def DataQualityValidator_init_def Let_def)
  then show ?thesis
    using ingest_point_after_call[of "DataIngestionPipeline_init example_config" example_env
            example_point]
          ingest_point_after_call[of "DataIngestionPipeline_init example_config" example_env
            unstamped_point]
    by (simp add: example_point_def unstamped_point_def example_env_def)
qed

text \<open>
  C7 as it is stated fails for a valid point that arrives without a timestamp: after the
  call the caller's point carries one.
\<close>

theorem ingest_mutates_timestamp_counterexample:
  "fst (snd (ingest_data_point (DataIngestionPipeline_init example_config) example_env
               unstamped_point)) \<noteq> unstamped_point"
  by (simp add: ingest_data_point_def validate_price_data_def DataIngestionPipeline_init_def
      DataQualityValidator_init_def unstamped_point_def example_point_def put_and_finish_def
      maxsize_def stamp_def Let_def)

subsection \<open>\<open>start\<close> twice, \<open>stop\<close> when stopped\<close>

text \<open>
  C8. A second \<open>start()\<close> right after a first one returns the pipeline unchanged and creates
  no second \<open>_batch_processor\<close> task, so the state after two calls is the state after one;
  this holds whatever the state before the first call and whatever the clock shows. \<open>stop()\<close>
  on a pipeline that is not running returns it unchanged.
\<close>

theorem start_twice_stop_stopped:
  "start (fst (start s t1)) t2 = (fst (start s t1), False) \<and>
   step (step w (Start t1)) (Start t2) = step w (Start t1) \<and>
   (\<not> running s \<longrightarrow> stop s = s) \<and>
   (\<not> running (pipeline w) \<longrightarrow> step w Stop = w)"
  by (simp add: start_def stop_def)

theorem start_twice_stop_stopped_witness:
  "\<not> running (DataIngestionPipeline_init example_config) \<and>
   stop (DataIngestionPipeline_init example_config) = DataIngestionPipeline_init example_config \<and>
   running (fst (start (DataIngestionPipeline_init example_config) 1000)) \<and>
   start (fst (start (DataIngestionPipeline_init example_config) 1000)) 1001 =
     (fst (start (DataIngestionPipeline_init example_config) 1000), False)"
  using start_twice_stop_stopped[of "DataIngestionPipeline_init example_config" 1000 1001
          "fresh example_config"]
  by (simp add: DataIngestionPipeline_init_def start_def)

subsection \<open>\<open>total_processed\<close> counts the accepted points\<close>

text \<open>
  C9. After any execution that starts from a fresh pipeline (any sequence of
  \<open>ingest_data_point\<close> calls, completed or suspended, interleaved in any way with \<open>start\<close>,
  \<open>stop\<close> and passes of the batch processor), \<open>total_processed\<close> equals \<open>valid_points\<close>. A call
  that returns \<open>False\<close> leaves \<open>total_processed\<close> as it was.
\<close>

theorem total_processed_eq_valid_points:
  "total_processed (metrics (pipeline (run (fresh cfg) es))) =
     valid_points (metrics (pipeline (run (fresh cfg) es))) \<and>
   (fst (ingest_data_point s env p) = Returned False \<longrightarrow>
      total_processed (metrics (snd (snd (ingest_data_point s env p)))) =
        total_processed (metrics s))"
proof
  show "total_processed (metrics (pipeline (run (fresh cfg) es))) =
     valid_points (metrics (pipeline (run (fresh cfg) es)))"
    using pipeline_inv_run[OF pipeline_inv_fresh, of cfg es]
    by (simp add: pipeline_inv_def counters_agree_def)
  show "fst (ingest_data_point s env p) = Returned False \<longrightarrow>
      total_processed (metrics (snd (snd (ingest_data_point s env p)))) =
        total_processed (metrics s)"
    by (cases "validate_price_data (validator s) p")
       (simp add: ingest_data_point_def put_and_finish_def Let_def)
qed

lemma example_run_counters:
  "total_processed (metrics (pipeline (run (fresh example_config)
      [Ingest example_env example_point, Ingest example_env invalid_point]))) = 1"
  "rejected_points (metrics (pipeline (run (fresh example_config)
      [Ingest example_env example_point, Ingest example_env invalid_point]))) = 1"
  by (simp_all add: run_def fresh_def DataIngestionPipeline_init_def example_config_def
      ingest_data_point_def validate_price_data_def DataQualityValidator_init_def
      example_point_def invalid_point_def put_and_finish_def after_put_def maxsize_def
      stamp_def Let_def deque_append_def example_env_def)

theorem total_processed_eq_valid_points_witness:
  "fst (ingest_data_point (DataIngestionPipeline_init example_config) example_env invalid_point)
     = Returned False \<and>
   total_processed (metrics (snd (snd (ingest_data_point
      (DataIngestionPipeline_init example_config) example_env invalid_point)))) = 0 \<and>
   valid_points (metrics (pipeline (run (fresh example_config)
      [Ingest example_env example_point, Ingest example_env invalid_point]))) = 1 \<and>
   rejected_points (metrics (pipeline (run (fresh example_config)
      [Ingest example_env example_point, Ingest example_env invalid_point]))) = 1"
proof -
  have r: "fst (ingest_data_point (DataIngestionPipeline_init example_config) example_env
             invalid_point) = Returned False"
    by (simp add: ingest_data_point_def validate_price_data_def invalid_point_def
        example_point_def)
  show ?thesis
    using r total_processed_eq_valid_points[of example_config
            "[Ingest example_env example_point, Ingest example_env invalid_point]"
            "DataIngestionPipeline_init example_config" example_env invalid_point]
    by (simp add: example_run_counters) (simp add: DataIngestionPipeline_init_def)
qed

subsection \<open>Serialisation round trip\<close>




end
